theory Spec2Isabelle
  imports Complex_Main "HOL-Library.Multiset"
begin

section \<open>The finance calculation engine\<close>

text \<open>
  A shallow embedding of the two calculation modules of the finance calculator:
  the credit card utilities (monthly interest, payoff simulation, payment schedule,
  avalanche and snowball ordering, payment distribution) and the mortgage utilities
  (monthly payment, PMI, total interest, amortization schedule, affordability).

  Numbers. A TypeScript \<open>number\<close> is modelled by the type \<open>number\<close> below: a real
  number (\<open>Num\<close>), \<open>Infinity\<close>, \<open>-Infinity\<close> or \<open>NaN\<close>. Arithmetic on finite values is
  exact arithmetic on the reals; the rounding error and the overflow of IEEE doubles
  and the sign of zero are outside the model (a zero divisor is read as \<open>+0\<close>). The
  non-finite values are kept because the code produces them from finite inputs: the
  literal \<open>Infinity\<close> of the payoff sentinel, and every division by a computed
  quantity that can be zero. Counts (a loan term in whole years, a cap on the number
  of months, a month index) are natural numbers, read as numbers by \<open>of_count\<close> where
  the code computes with them. The theorems are about finite inputs: they are stated
  at \<open>Num x\<close> for real \<open>x\<close>, or under \<open>isFinite\<close>, except where they hold for every
  number.
\<close>

subsection \<open>JavaScript numbers\<close>

datatype number = Num real | Infinity | NegInfinity | NaN

text \<open>\<open>inf_of_sign s\<close>: the product of an infinity of positive sign with a finite \<open>s\<close>.\<close>

definition inf_of_sign :: "real \<Rightarrow> number" where
  "inf_of_sign s = (if s = 0 then NaN else if 0 < s then Infinity else NegInfinity)"

instantiation number :: "{plus, uminus, minus, times, inverse, ord}"
begin

fun uminus_number :: "number \<Rightarrow> number" where
  "uminus_number (Num a) = Num (- a)"
| "uminus_number Infinity = NegInfinity"
| "uminus_number NegInfinity = Infinity"
| "uminus_number NaN = NaN"

fun plus_number :: "number \<Rightarrow> number \<Rightarrow> number" where
  "plus_number (Num a) (Num b) = Num (a + b)"
| "plus_number NaN y = NaN"
| "plus_number x NaN = NaN"
| "plus_number Infinity NegInfinity = NaN"
| "plus_number NegInfinity Infinity = NaN"
| "plus_number Infinity y = Infinity"
| "plus_number x Infinity = Infinity"
| "plus_number NegInfinity y = NegInfinity"
| "plus_number x NegInfinity = NegInfinity"

definition minus_number :: "number \<Rightarrow> number \<Rightarrow> number" where
  "minus_number x y = x + (- y)"

fun times_number :: "number \<Rightarrow> number \<Rightarrow> number" where
  "times_number (Num a) (Num b) = Num (a * b)"
| "times_number NaN y = NaN"
| "times_number x NaN = NaN"
| "times_number (Num a) Infinity = inf_of_sign a"
| "times_number (Num a) NegInfinity = inf_of_sign (- a)"
| "times_number Infinity (Num b) = inf_of_sign b"
| "times_number NegInfinity (Num b) = inf_of_sign (- b)"
| "times_number Infinity Infinity = Infinity"
| "times_number NegInfinity NegInfinity = Infinity"
| "times_number Infinity NegInfinity = NegInfinity"
| "times_number NegInfinity Infinity = NegInfinity"

fun divide_number :: "number \<Rightarrow> number \<Rightarrow> number" where
  "divide_number (Num a) (Num b) = (if b = 0 then inf_of_sign a else Num (a / b))"
| "divide_number NaN y = NaN"
| "divide_number x NaN = NaN"
| "divide_number (Num a) y = Num 0"
| "divide_number Infinity (Num b) = (if 0 \<le> b then Infinity else NegInfinity)"
| "divide_number NegInfinity (Num b) = (if 0 \<le> b then NegInfinity else Infinity)"
| "divide_number x y = NaN"

definition inverse_number :: "number \<Rightarrow> number" where
  "inverse_number x = Num 1 div x"

fun less_number :: "number \<Rightarrow> number \<Rightarrow> bool" where
  "less_number (Num a) (Num b) = (a < b)"
| "less_number NaN y = False"
| "less_number x NaN = False"
| "less_number x NegInfinity = False"
| "less_number Infinity y = False"
| "less_number x y = True"

fun less_eq_number :: "number \<Rightarrow> number \<Rightarrow> bool" where
  "less_eq_number (Num a) (Num b) = (a \<le> b)"
| "less_eq_number NaN y = False"
| "less_eq_number x NaN = False"
| "less_eq_number NegInfinity y = True"
| "less_eq_number x Infinity = True"
| "less_eq_number x y = False"

instance ..

end

text \<open>\<open>Number.isFinite\<close>.\<close>

fun isFinite :: "number \<Rightarrow> bool" where
  "isFinite (Num a) = True"
| "isFinite x = False"

text \<open>\<open>===\<close> on numbers: \<open>NaN\<close> is not equal to itself.\<close>

definition strict_eq :: "number \<Rightarrow> number \<Rightarrow> bool" where
  "strict_eq x y = (x = y \<and> x \<noteq> NaN)"

text \<open>\<open>Math.round\<close>: the nearest integer, a tie going up, that is \<open>floor (x + 1/2)\<close>.\<close>

fun Math_round :: "number \<Rightarrow> number" where
  "Math_round (Num a) = Num (of_int \<lfloor>a + 1 / 2\<rfloor>)"
| "Math_round x = x"

text \<open>\<open>Math.min\<close> of two numbers (and of three, nested): \<open>NaN\<close> when an argument is.\<close>

fun Math_min :: "number \<Rightarrow> number \<Rightarrow> number" where
  "Math_min NaN y = NaN"
| "Math_min x NaN = NaN"
| "Math_min x y = (if x \<le> y then x else y)"

fun Math_max :: "number \<Rightarrow> number \<Rightarrow> number" where
  "Math_max NaN y = NaN"
| "Math_max x NaN = NaN"
| "Math_max x y = (if x \<le> y then y else x)"

text \<open>\<open>Math.pow\<close> at a natural exponent, by repeated multiplication
  (\<open>Math.pow(x, 0)\<close> is 1 for every \<open>x\<close>, \<open>NaN\<close> included).\<close>

primrec Math_pow :: "number \<Rightarrow> nat \<Rightarrow> number" where
  "Math_pow x 0 = Num 1"
| "Math_pow x (Suc n) = x * Math_pow x n"

text \<open>A count read as a number.\<close>

definition of_count :: "nat \<Rightarrow> number" where
  "of_count n = Num (real n)"

subsection \<open>Calendar dates\<close>

text \<open>
  The payment schedule dates its entries. Of a \<open>Date\<close> the code reads the local calendar
  year, the month index (0 to 11) and the day of the month (1 to 31), and it builds
  dates with \<open>new Date(year, monthIndex, day)\<close>, which carries a month index past 11 into
  the following years and a day past the end of the month into the following months
  (the day is at least 1, as \<open>getDate\<close> returns it). The time of day plays no part:
  every date that the code stores is a local midnight.
\<close>

record jsdate =
  getFullYear :: int
  getMonth :: nat
  getDate :: nat

definition isLeapYear :: "int \<Rightarrow> bool" where
  "isLeapYear y = (y mod 4 = 0 \<and> (y mod 400 = 0 \<or> y mod 100 \<noteq> 0))"

definition daysInMonth :: "int \<Rightarrow> nat \<Rightarrow> nat" where
  "daysInMonth y m =
     (if m = 1 then (if isLeapYear y then 29 else 28)
      else if m = 3 \<or> m = 5 \<or> m = 8 \<or> m = 10 then 30 else 31)"

function newDate :: "int \<Rightarrow> nat \<Rightarrow> nat \<Rightarrow> jsdate" where
  "newDate y m d =
     (if daysInMonth (y + int (m div 12)) (m mod 12) < d
      then newDate (y + int (m div 12)) (m mod 12 + 1)
             (d - daysInMonth (y + int (m div 12)) (m mod 12))
      else \<lparr>getFullYear = y + int (m div 12), getMonth = m mod 12, getDate = d\<rparr>)"
  by pat_completeness auto
termination
  by (relation "measure (\<lambda>(y, m, d). d)") (auto simp: daysInMonth_def)

declare newDate.simps [simp del]

subsection \<open>Credit card utilities\<close>

text \<open>
  The fields of a card that the calculations read. Record fields carry a prefix
  (\<open>card_\<close>, \<open>rec_\<close>, \<open>res_\<close>, \<open>alloc_\<close>, \<open>entry_\<close>, \<open>in_\<close>, \<open>out_\<close>) so that the
  parameters and local variables of the functions can keep the names of the source;
  a variable whose name is a constant of HOL (\<open>card\<close>, \<open>principal\<close>) gets a prime.
\<close>

record CreditCard =
  card_id :: string
  card_balance :: number
  card_creditLimit :: number
  card_minimumPayment :: number
  card_interestRate :: number

record PaymentRecord =
  rec_date :: jsdate
  rec_amount :: number
  rec_interestCharged :: number
  rec_principalPaid :: number
  rec_remainingBalance :: number

record PayoffResult =
  res_months :: number
  res_totalInterest :: number
  res_totalPaid :: number

definition calculateMonthlyInterest :: "number \<Rightarrow> number \<Rightarrow> number" where
  "calculateMonthlyInterest balance annualInterestRate =
     (let monthlyRate = annualInterestRate / Num 100 / Num 12
      in Math_round (balance * monthlyRate * Num 100) / Num 100)"

definition calculateMinimumPayment :: "number \<Rightarrow> number \<Rightarrow> number \<Rightarrow> number" where
  "calculateMinimumPayment balance minimumPercent minimumAmount =
     (let percentagePayment = balance * (minimumPercent / Num 100)
      in Math_round (Math_max percentagePayment minimumAmount * Num 100) / Num 100)"

text \<open>
  The \<open>while\<close> loop of \<open>calculatePayoffTime\<close>, on its three variables. The \<open>break\<close> of
  the safety check leaves the loop after the month has been counted.
\<close>

function payoff_loop ::
  "number \<Rightarrow> number \<Rightarrow> number \<Rightarrow> nat \<Rightarrow> number \<Rightarrow> number \<times> nat \<times> number" where
  "payoff_loop monthlyPayment monthlyRate currentBalance months totalInterest =
     (if Num 0.01 < currentBalance \<and> months < 600 then
        (let interestCharge = currentBalance * monthlyRate;
             principalPayment = Math_min (monthlyPayment - interestCharge) currentBalance
         in if principalPayment \<le> Num 0
            then (currentBalance - principalPayment, months + 1, totalInterest + interestCharge)
            else payoff_loop monthlyPayment monthlyRate
                   (currentBalance - principalPayment) (months + 1) (totalInterest + interestCharge))
      else (currentBalance, months, totalInterest))"
  by pat_completeness auto
termination
  by (relation "measure (\<lambda>(p, r, b, months, t). 600 - months)") auto

declare payoff_loop.simps [simp del]

definition calculatePayoffTime :: "number \<Rightarrow> number \<Rightarrow> number \<Rightarrow> PayoffResult" where
  "calculatePayoffTime balance annualInterestRate monthlyPayment =
     (if monthlyPayment \<le> Num 0 \<or> balance \<le> Num 0
      then \<lparr>res_months = Num 0, res_totalInterest = Num 0, res_totalPaid = Num 0\<rparr>
      else
        (let monthlyRate = annualInterestRate / Num 100 / Num 12;
             minimumInterest = calculateMonthlyInterest balance annualInterestRate
         in if monthlyPayment \<le> minimumInterest
            then \<lparr>res_months = Infinity, res_totalInterest = Infinity, res_totalPaid = Infinity\<rparr>
            else
              (case payoff_loop monthlyPayment monthlyRate balance 0 (Num 0) of
                 (currentBalance, months, totalInterest) \<Rightarrow>
                   \<lparr>res_months = of_count months,
                    res_totalInterest = Math_round (totalInterest * Num 100) / Num 100,
                    res_totalPaid = Math_round ((balance + totalInterest) * Num 100) / Num 100\<rparr>)))"

text \<open>
  The \<open>for\<close> loop of \<open>generatePaymentSchedule\<close>. \<open>schedule.push\<close> appends. The first
  \<open>currentDate\<close> is \<open>new Date()\<close>, the time of the call: the function reads the clock, so
  the model takes the clock's calendar date as its first argument \<open>now\<close>. The cap
  \<open>maxMonths\<close> is an argument of the model; a caller that leaves it out passes 120.
\<close>

function schedule_loop ::
  "number \<Rightarrow> number \<Rightarrow> nat \<Rightarrow> nat \<Rightarrow> number \<Rightarrow> jsdate \<Rightarrow> PaymentRecord list
     \<Rightarrow> PaymentRecord list" where
  "schedule_loop monthlyPayment monthlyRate maxMonths month currentBalance currentDate schedule =
     (if month < maxMonths \<and> Num 0.01 < currentBalance then
        (let interestCharged = currentBalance * monthlyRate;
             principalPaid = Math_min (monthlyPayment - interestCharged) currentBalance
         in if principalPaid \<le> Num 0 then schedule
            else
              (let nextDate = newDate (getFullYear currentDate) (getMonth currentDate + 1)
                                (getDate currentDate)
               in schedule_loop monthlyPayment monthlyRate maxMonths (month + 1)
                    (currentBalance - principalPaid) nextDate
                    (schedule @
                      [\<lparr>rec_date = nextDate,
                        rec_amount = monthlyPayment,
                        rec_interestCharged = Math_round (interestCharged * Num 100) / Num 100,
                        rec_principalPaid = Math_round (principalPaid * Num 100) / Num 100,
                        rec_remainingBalance =
                          Math_round ((currentBalance - principalPaid) * Num 100) / Num 100\<rparr>])))
      else schedule)"
  by pat_completeness auto
termination
  by (relation "measure (\<lambda>(p, r, maxMonths, month, b, d, s). maxMonths - month)") auto

declare schedule_loop.simps [simp del]

definition generatePaymentSchedule ::
  "jsdate \<Rightarrow> number \<Rightarrow> number \<Rightarrow> number \<Rightarrow> nat \<Rightarrow> PaymentRecord list" where
  "generatePaymentSchedule now balance annualInterestRate monthlyPayment maxMonths =
     (let monthlyRate = annualInterestRate / Num 100 / Num 12
      in schedule_loop monthlyPayment monthlyRate maxMonths 0 balance now [])"

text \<open>
  \<open>Array.prototype.sort\<close> with a comparator. The sort is stable, and for a comparator
  that is a consistent ordering its result is the stable insertion sort below:
  \<open>x\<close> goes behind \<open>y\<close> exactly when \<open>cmp x y\<close> is positive.
\<close>

fun insertBy :: "('a \<Rightarrow> 'a \<Rightarrow> number) \<Rightarrow> 'a \<Rightarrow> 'a list \<Rightarrow> 'a list" where
  "insertBy cmp x [] = [x]"
| "insertBy cmp x (y # ys) = (if Num 0 < cmp x y then y # insertBy cmp x ys else x # y # ys)"

definition Array_sort :: "('a \<Rightarrow> 'a \<Rightarrow> number) \<Rightarrow> 'a list \<Rightarrow> 'a list" where
  "Array_sort cmp xs = foldr (insertBy cmp) xs []"

definition calculateDebtAvalanche :: "CreditCard list \<Rightarrow> CreditCard list" where
  "calculateDebtAvalanche cards =
     Array_sort (\<lambda>a b. card_interestRate b - card_interestRate a) cards"

definition calculateDebtSnowball :: "CreditCard list \<Rightarrow> CreditCard list" where
  "calculateDebtSnowball cards =
     Array_sort (\<lambda>a b. card_balance a - card_balance b) cards"

datatype strategy = Avalanche | Snowball

record PaymentAllocation =
  alloc_cardId :: string
  alloc_payment :: number

text \<open>The first loop of \<open>calculateOptimalPaymentDistribution\<close>: the minimum payments.\<close>

fun allocateMinimums ::
  "CreditCard list \<Rightarrow> number \<Rightarrow> PaymentAllocation list \<Rightarrow> PaymentAllocation list \<times> number" where
  "allocateMinimums [] remainingBudget payments = (payments, remainingBudget)"
| "allocateMinimums (card' # sortedCards) remainingBudget payments =
     (let minPayment =
            Math_min (card_minimumPayment card') (Math_min remainingBudget (card_balance card'))
      in allocateMinimums sortedCards (remainingBudget - minPayment)
           (payments @ [\<lparr>alloc_cardId = card_id card', alloc_payment = minPayment\<rparr>]))"

text \<open>
  \<open>payments.find(p => ...)\<close> yields the first matching element, which the code then
  updates in place: the model finds its index and updates the list there.
\<close>

fun findIndex :: "('a \<Rightarrow> bool) \<Rightarrow> 'a list \<Rightarrow> nat option" where
  "findIndex f [] = None"
| "findIndex f (x # xs) = (if f x then Some 0 else map_option Suc (findIndex f xs))"

definition calculateOptimalPaymentDistribution ::
  "CreditCard list \<Rightarrow> number \<Rightarrow> strategy \<Rightarrow> PaymentAllocation list" where
  "calculateOptimalPaymentDistribution cards totalPaymentBudget strategy =
     (let sortedCards =
            (if strategy = Avalanche then calculateDebtAvalanche cards
             else calculateDebtSnowball cards)
      in case allocateMinimums sortedCards totalPaymentBudget [] of
           (payments, remainingBudget) \<Rightarrow>
             if Num 0 < remainingBudget \<and> 0 < length sortedCards then
               (let priorityCard = hd sortedCards
                in case findIndex (\<lambda>p. alloc_cardId p = card_id priorityCard) payments of
                     None \<Rightarrow> payments
                   | Some i \<Rightarrow>
                       (let priorityPayment = payments ! i;
                            maxExtraPayment =
                              Math_min remainingBudget
                                (card_balance priorityCard - alloc_payment priorityPayment)
                        in payments
                             [i := priorityPayment
                                \<lparr>alloc_payment := alloc_payment priorityPayment + maxExtraPayment\<rparr>]))
             else payments)"

subsection \<open>Mortgage utilities\<close>

record MortgageInputs =
  in_loanAmount :: number
  in_downPayment :: number
  in_interestRate :: number
  in_loanTermYears :: nat
  in_propertyTax :: number
  in_homeInsurance :: number
  in_pmiRate :: "number option"

record MortgageResults =
  out_monthlyPayment :: number
  out_principal :: number
  out_interest :: number
  out_monthlyTax :: number
  out_monthlyInsurance :: number
  out_monthlyPMI :: number
  out_totalMonthlyPayment :: number
  out_totalInterest :: number
  out_totalCost :: number

record AmortizationEntry =
  entry_month :: nat
  entry_principalPayment :: number
  entry_interestPayment :: number
  entry_remainingBalance :: number
  entry_totalInterestPaid :: number

definition calculateMonthlyPayment :: "number \<Rightarrow> number \<Rightarrow> nat \<Rightarrow> number" where
  "calculateMonthlyPayment principal' annualInterestRate loanTermYears =
     (if strict_eq annualInterestRate (Num 0)
      then Math_round ((principal' / of_count (loanTermYears * 12)) * Num 100) / Num 100
      else
        (let monthlyRate = annualInterestRate / Num 100 / Num 12;
             numberOfPayments = loanTermYears * 12;
             monthlyPayment =
               principal' * (monthlyRate * Math_pow (Num 1 + monthlyRate) numberOfPayments) /
                 (Math_pow (Num 1 + monthlyRate) numberOfPayments - Num 1)
         in Math_round (monthlyPayment * Num 100) / Num 100))"

definition calculatePMI :: "number \<Rightarrow> number \<Rightarrow> number" where
  "calculatePMI loanAmount pmiRate =
     Math_round ((loanAmount * (pmiRate / Num 100) / Num 12) * Num 100) / Num 100"

definition calculateMonthlyPropertyTax :: "number \<Rightarrow> number" where
  "calculateMonthlyPropertyTax annualPropertyTax =
     Math_round ((annualPropertyTax / Num 12) * Num 100) / Num 100"

definition calculateMonthlyInsurance :: "number \<Rightarrow> number" where
  "calculateMonthlyInsurance annualInsurance =
     Math_round ((annualInsurance / Num 12) * Num 100) / Num 100"

definition calculateTotalInterest :: "number \<Rightarrow> nat \<Rightarrow> number \<Rightarrow> number" where
  "calculateTotalInterest monthlyPayment loanTermYears principal' =
     (let totalPayments = monthlyPayment * of_count loanTermYears * Num 12
      in Math_round ((totalPayments - principal') * Num 100) / Num 100)"

definition calculateMortgage :: "MortgageInputs \<Rightarrow> MortgageResults" where
  "calculateMortgage inputs =
     (let loanAmount = in_loanAmount inputs;
          downPayment = in_downPayment inputs;
          interestRate = in_interestRate inputs;
          loanTermYears = in_loanTermYears inputs;
          propertyTax = in_propertyTax inputs;
          homeInsurance = in_homeInsurance inputs;
          pmiRate = (case in_pmiRate inputs of None \<Rightarrow> Num 0 | Some v \<Rightarrow> v);
          actualLoanAmount = loanAmount - downPayment;
          monthlyPayment = calculateMonthlyPayment actualLoanAmount interestRate loanTermYears;
          monthlyTax = calculateMonthlyPropertyTax propertyTax;
          monthlyInsurance = calculateMonthlyInsurance homeInsurance;
          downPaymentPercent = (downPayment / loanAmount) * Num 100;
          monthlyPMI =
            (if downPaymentPercent < Num 20 then calculatePMI actualLoanAmount pmiRate
             else Num 0);
          totalMonthlyPayment = monthlyPayment + monthlyTax + monthlyInsurance + monthlyPMI;
          totalInterest = calculateTotalInterest monthlyPayment loanTermYears actualLoanAmount;
          totalCost =
            actualLoanAmount + totalInterest +
              (monthlyTax + monthlyInsurance) * of_count loanTermYears * Num 12
      in \<lparr>out_monthlyPayment = monthlyPayment,
          out_principal = actualLoanAmount,
          out_interest = totalInterest,
          out_monthlyTax = monthlyTax,
          out_monthlyInsurance = monthlyInsurance,
          out_monthlyPMI = monthlyPMI,
          out_totalMonthlyPayment = totalMonthlyPayment,
          out_totalInterest = totalInterest,
          out_totalCost = totalCost\<rparr>)"

text \<open>The \<open>for\<close> loop of \<open>generateAmortizationSchedule\<close>, \<open>month\<close> running from 1.\<close>

function amortization_loop ::
  "number \<Rightarrow> number \<Rightarrow> nat \<Rightarrow> nat \<Rightarrow> number \<Rightarrow> number \<Rightarrow> AmortizationEntry list
     \<Rightarrow> AmortizationEntry list" where
  "amortization_loop monthlyRate monthlyPayment numberOfPayments month remainingBalance
       totalInterestPaid schedule =
     (if month \<le> numberOfPayments then
        (let interestPayment = remainingBalance * monthlyRate;
             principalPayment = monthlyPayment - interestPayment;
             reduced = remainingBalance - principalPayment;
             clamped = (if reduced < Num 0 then Num 0 else reduced)
         in amortization_loop monthlyRate monthlyPayment numberOfPayments (month + 1) clamped
              (totalInterestPaid + interestPayment)
              (schedule @
                [\<lparr>entry_month = month,
                  entry_principalPayment = Math_round (principalPayment * Num 100) / Num 100,
                  entry_interestPayment = Math_round (interestPayment * Num 100) / Num 100,
                  entry_remainingBalance = Math_round (clamped * Num 100) / Num 100,
                  entry_totalInterestPaid =
                    Math_round ((totalInterestPaid + interestPayment) * Num 100) / Num 100\<rparr>]))
      else schedule)"
  by pat_completeness auto
termination
  by (relation "measure (\<lambda>(r, p, n, month, b, t, s). Suc n - month)") auto

declare amortization_loop.simps [simp del]

definition generateAmortizationSchedule ::
  "number \<Rightarrow> number \<Rightarrow> nat \<Rightarrow> AmortizationEntry list" where
  "generateAmortizationSchedule principal' annualInterestRate loanTermYears =
     (let monthlyRate = annualInterestRate / Num 100 / Num 12;
          numberOfPayments = loanTermYears * 12;
          monthlyPayment = calculateMonthlyPayment principal' annualInterestRate loanTermYears
      in amortization_loop monthlyRate monthlyPayment numberOfPayments 1 principal' (Num 0) [])"

definition calculateAffordableHousePrice ::
  "number \<Rightarrow> number \<Rightarrow> number \<Rightarrow> nat \<Rightarrow> number \<Rightarrow> number" where
  "calculateAffordableHousePrice monthlyBudget downPaymentPercent interestRate loanTermYears
       monthlyTaxInsurance =
     (let availableForPrincipalInterest = monthlyBudget - monthlyTaxInsurance
      in if availableForPrincipalInterest \<le> Num 0 then Num 0
         else
           (let monthlyRate = interestRate / Num 100 / Num 12;
                numberOfPayments = loanTermYears * 12
            in if strict_eq monthlyRate (Num 0) then
                 (let maxLoanAmount = availableForPrincipalInterest * of_count numberOfPayments
                  in maxLoanAmount / (Num 1 - downPaymentPercent / Num 100))
               else
                 (let maxLoanAmount =
                        availableForPrincipalInterest *
                          (Math_pow (Num 1 + monthlyRate) numberOfPayments - Num 1) /
                          (monthlyRate * Math_pow (Num 1 + monthlyRate) numberOfPayments);
                      maxHousePrice = maxLoanAmount / (Num 1 - downPaymentPercent / Num 100)
                  in Math_round (maxHousePrice * Num 100) / Num 100)))"

subsection \<open>Notions used in the statements\<close>

text \<open>The value of a finite number, and the finite numbers that are not negative.\<close>

fun realOf :: "number \<Rightarrow> real" where
  "realOf (Num a) = a"
| "realOf x = 0"

fun nonNegative :: "number \<Rightarrow> bool" where
  "nonNegative (Num a) = (0 \<le> a)"
| "nonNegative x = False"

text \<open>The sum of the payments of a distribution, added up with the addition of numbers.\<close>

definition sumPayments :: "PaymentAllocation list \<Rightarrow> number" where
  "sumPayments ps = foldr (\<lambda>p s. alloc_payment p + s) ps (Num 0)"

text \<open>The priority order: the \<open>sortedCards\<close> of \<open>calculateOptimalPaymentDistribution\<close>.\<close>

definition priorityOrder :: "CreditCard list \<Rightarrow> strategy \<Rightarrow> CreditCard list" where
  "priorityOrder cards strategy =
     (if strategy = Avalanche then calculateDebtAvalanche cards else calculateDebtSnowball cards)"

text \<open>A payment that names a card and lies between zero and the card's balance.\<close>

definition allocated :: "PaymentAllocation \<Rightarrow> CreditCard \<Rightarrow> bool" where
  "allocated p c \<longleftrightarrow>
     alloc_cardId p = card_id c \<and>
     (case alloc_payment p of
        Num q \<Rightarrow> 0 \<le> q \<and> q \<le> realOf (card_balance c)
      | _ \<Rightarrow> False)"

text \<open>The date one month on, as the payment schedule computes it.\<close>

definition nextMonth :: "jsdate \<Rightarrow> jsdate" where
  "nextMonth d = newDate (getFullYear d) (getMonth d + 1) (getDate d)"

text \<open>The four money fields of a schedule entry: everything but its date.\<close>

definition numericFields :: "PaymentRecord \<Rightarrow> number \<times> number \<times> number \<times> number" where
  "numericFields e =
     (rec_amount e, rec_interestCharged e, rec_principalPaid e, rec_remainingBalance e)"

text \<open>
  Rounding to cents on the reals, and the annuity formula as the specification writes
  it, \<open>M = P r (1 + r)^n / ((1 + r)^n - 1)\<close>: the two sides of the comparison with
  \<open>calculateMonthlyPayment\<close>.
\<close>

definition round_to_cents :: "real \<Rightarrow> real" where
  "round_to_cents x = of_int \<lfloor>x * 100 + 1 / 2\<rfloor> / 100"

definition spec_annuity_payment :: "real \<Rightarrow> real \<Rightarrow> nat \<Rightarrow> real" where
  "spec_annuity_payment P r n = P * (r * (1 + r) ^ n) / ((1 + r) ^ n - 1)"

section \<open>Properties\<close>

subsection \<open>Arithmetic of finite numbers\<close>

lemma Num_minus [simp]: "Num a - Num b = Num (a - b)"
  by (simp add: minus_number_def)

lemma Num_divide [simp]: "b \<noteq> 0 \<Longrightarrow> Num a / Num b = Num (a / b)"
  by simp

lemma Math_pow_Num [simp]: "Math_pow (Num a) n = Num (a ^ n)"
  by (induction n) auto

lemma Math_min_Num [simp]: "Math_min (Num a) (Num b) = Num (min a b)"
  by (simp add: min_def)

lemma strict_eq_Num [simp]: "strict_eq (Num a) (Num b) \<longleftrightarrow> a = b"
  by (simp add: strict_eq_def)

lemma less_eq_not_less: "(x::number) \<le> y \<Longrightarrow> \<not> y < x"
  by (cases x; cases y) auto

lemma not_le_not_less_zero: "\<not> x \<le> Num 0 \<Longrightarrow> \<not> Num 0 < x \<Longrightarrow> x = NaN"
  by (cases x) auto

lemma le_NaN [simp]: "\<not> (x::number) \<le> NaN"
  by (cases x) auto

lemma isFinite_realOf: "isFinite x \<Longrightarrow> x = Num (realOf x)"
  by (cases x) auto

lemma nonNegative_realOf: "nonNegative x \<Longrightarrow> x = Num (realOf x) \<and> 0 \<le> realOf x"
  by (cases x) auto

lemma nonNegative_isFinite: "nonNegative x \<Longrightarrow> isFinite x"
  by (cases x) auto

lemma round_to_cents_0 [simp]: "round_to_cents 0 = 0"
  by (simp add: round_to_cents_def)

lemma round_to_cents_lower: "x - 0.005 \<le> round_to_cents x"
proof -
  have "x * 100 + 1 / 2 - 1 \<le> of_int \<lfloor>x * 100 + 1 / 2\<rfloor>"
    by linarith
  then show ?thesis by (simp add: round_to_cents_def field_simps)
qed

subsection \<open>The payment distribution\<close>

lemma mset_insertBy [simp]: "mset (insertBy cmp x xs) = add_mset x (mset xs)"
  by (induction xs) auto

lemma mset_Array_sort [simp]: "mset (Array_sort cmp xs) = mset xs"
  by (induction xs) (auto simp: Array_sort_def)

lemma set_insertBy [simp]: "set (insertBy cmp x xs) = insert x (set xs)"
  by (induction xs) auto

text \<open>A comparator that is the difference of a real key sorts by that key.\<close>

lemma sorted_insertBy:
  assumes "\<forall>y\<in>set ys. cmp x y = Num (k x - k y)" "sorted_wrt (\<lambda>a b. k a \<le> k b) ys"
  shows "sorted_wrt (\<lambda>a b. (k a :: real) \<le> k b) (insertBy cmp x ys)"
  using assms by (induction ys) auto

lemma sorted_Array_sort:
  assumes "\<forall>x\<in>set xs. \<forall>y\<in>set xs. cmp x y = Num (k x - k y)"
  shows "sorted_wrt (\<lambda>a b. (k a :: real) \<le> k b) (Array_sort cmp xs)"
  using assms
proof (induction xs)
  case Nil
  then show ?case by (simp add: Array_sort_def)
next
  case (Cons x xs)
  have "sorted_wrt (\<lambda>a b. k a \<le> k b) (Array_sort cmp xs)"
    using Cons by simp
  moreover have "\<forall>y\<in>set (Array_sort cmp xs). cmp x y = Num (k x - k y)"
    using Cons.prems by (metis list.set_intros(1) list.set_intros(2) mset_Array_sort set_mset_mset)
  ultimately have "sorted_wrt (\<lambda>a b. k a \<le> k b) (insertBy cmp x (Array_sort cmp xs))"
    by (intro sorted_insertBy)
  then show ?case by (simp add: Array_sort_def)
qed

lemma hd_sorted_least:
  assumes "sorted_wrt (\<lambda>a b. (k a :: real) \<le> k b) ys" "c \<in> set ys"
  shows "k (hd ys) \<le> k c"
  using assms by (cases ys) auto

lemma priorityOrder_mset [simp]: "mset (priorityOrder cards strategy) = mset cards"
  by (simp add: priorityOrder_def calculateDebtAvalanche_def calculateDebtSnowball_def)

lemma priorityOrder_set [simp]: "set (priorityOrder cards strategy) = set cards"
  by (metis priorityOrder_mset set_mset_mset)

lemma priorityOrder_length [simp]: "length (priorityOrder cards strategy) = length cards"
  by (metis priorityOrder_mset size_mset)

lemma avalanche_first:
  assumes "\<forall>c\<in>set cards. isFinite (card_interestRate c)" "c \<in> set cards"
  shows "card_interestRate c \<le> card_interestRate (hd (calculateDebtAvalanche cards))"
proof -
  let ?k = "\<lambda>c. - realOf (card_interestRate c)"
  let ?s = "calculateDebtAvalanche cards"
  have fin: "\<And>x. x \<in> set cards \<Longrightarrow> card_interestRate x = Num (realOf (card_interestRate x))"
    using assms(1) isFinite_realOf by blast
  have "\<forall>x\<in>set cards. \<forall>y\<in>set cards.
          card_interestRate y - card_interestRate x = Num (?k x - ?k y)"
  proof (intro ballI)
    fix x y assume "x \<in> set cards" "y \<in> set cards"
    then have "card_interestRate y - card_interestRate x =
        Num (realOf (card_interestRate y)) - Num (realOf (card_interestRate x))"
      using fin by simp
    then show "card_interestRate y - card_interestRate x = Num (?k x - ?k y)" by simp
  qed
  then have "sorted_wrt (\<lambda>a b. ?k a \<le> ?k b) ?s"
    unfolding calculateDebtAvalanche_def by (rule sorted_Array_sort)
  moreover have "c \<in> set ?s"
    using assms(2) by (metis calculateDebtAvalanche_def mset_Array_sort set_mset_mset)
  ultimately have le: "?k (hd ?s) \<le> ?k c" by (rule hd_sorted_least)
  have "?s \<noteq> []" using \<open>c \<in> set ?s\<close> by auto
  then have "hd ?s \<in> set cards"
    by (metis calculateDebtAvalanche_def hd_in_set mset_Array_sort set_mset_mset)
  then have "card_interestRate (hd ?s) = Num (realOf (card_interestRate (hd ?s)))"
    using fin by blast
  moreover have "card_interestRate c = Num (realOf (card_interestRate c))"
    using fin assms(2) by blast
  ultimately show ?thesis using le by (metis less_eq_number.simps(1) neg_le_iff_le)
qed

lemma snowball_first:
  assumes "\<forall>c\<in>set cards. isFinite (card_balance c)" "c \<in> set cards"
  shows "card_balance (hd (calculateDebtSnowball cards)) \<le> card_balance c"
proof -
  let ?k = "\<lambda>c. realOf (card_balance c)"
  let ?s = "calculateDebtSnowball cards"
  have fin: "\<And>x. x \<in> set cards \<Longrightarrow> card_balance x = Num (realOf (card_balance x))"
    using assms(1) isFinite_realOf by blast
  have "\<forall>x\<in>set cards. \<forall>y\<in>set cards.
          card_balance x - card_balance y = Num (?k x - ?k y)"
  proof (intro ballI)
    fix x y assume "x \<in> set cards" "y \<in> set cards"
    then have "card_balance x - card_balance y =
        Num (realOf (card_balance x)) - Num (realOf (card_balance y))"
      using fin by simp
    then show "card_balance x - card_balance y = Num (?k x - ?k y)" by simp
  qed
  then have "sorted_wrt (\<lambda>a b. ?k a \<le> ?k b) ?s"
    unfolding calculateDebtSnowball_def by (rule sorted_Array_sort)
  moreover have "c \<in> set ?s"
    using assms(2) by (metis calculateDebtSnowball_def mset_Array_sort set_mset_mset)
  ultimately have le: "?k (hd ?s) \<le> ?k c" by (rule hd_sorted_least)
  have "?s \<noteq> []" using \<open>c \<in> set ?s\<close> by auto
  then have "hd ?s \<in> set cards"
    by (metis calculateDebtSnowball_def hd_in_set mset_Array_sort set_mset_mset)
  then have "card_balance (hd ?s) = Num (realOf (card_balance (hd ?s)))"
    using fin by blast
  moreover have "card_balance c = Num (realOf (card_balance c))"
    using fin assms(2) by blast
  ultimately show ?thesis using le by (metis less_eq_number.simps(1))
qed

lemma allocated_iff:
  "allocated p c \<longleftrightarrow>
     alloc_cardId p = card_id c \<and>
     (\<exists>q. alloc_payment p = Num q \<and> 0 \<le> q \<and> q \<le> realOf (card_balance c))"
  by (auto simp: allocated_def split: number.splits)

lemma allocated_bounds:
  assumes "allocated p c" "nonNegative (card_balance c)"
  shows "Num 0 \<le> alloc_payment p \<and> alloc_payment p \<le> card_balance c"
proof -
  from assms(1) obtain q where "alloc_payment p = Num q" "0 \<le> q" "q \<le> realOf (card_balance c)"
    by (auto simp: allocated_iff)
  moreover have "card_balance c = Num (realOf (card_balance c))"
    using assms(2) nonNegative_realOf by blast
  ultimately show ?thesis by (metis less_eq_number.simps(1))
qed

text \<open>
  The minimum-payment loop, from any budget that is left and any payments made so far:
  it appends one payment per card, each within the card's balance, and what it pays
  and what it leaves add up to the budget it started with.
\<close>

lemma allocateMinimums_spec:
  assumes "\<forall>c\<in>set cs. nonNegative (card_balance c) \<and> nonNegative (card_minimumPayment c)"
    and "0 \<le> B"
  shows "\<exists>ps B'. allocateMinimums cs (Num B) acc = (acc @ ps, Num B') \<and> 0 \<le> B' \<and>
           list_all2 allocated ps cs \<and>
           sum_list (map (\<lambda>p. realOf (alloc_payment p)) ps) + B' = B"
  using assms
proof (induction cs arbitrary: B acc)
  case Nil
  then show ?case by simp
next
  case (Cons c cs)
  obtain m b where c: "card_minimumPayment c = Num m" "0 \<le> m" "card_balance c = Num b" "0 \<le> b"
    using Cons.prems(1) nonNegative_realOf by (metis list.set_intros(1))
  define q where "q = min m (min B b)"
  define e where "e = \<lparr>alloc_cardId = card_id c, alloc_payment = Num q\<rparr>"
  have q: "0 \<le> q" "q \<le> B" "q \<le> b"
    using c Cons.prems(2) by (auto simp: q_def)
  have step: "allocateMinimums (c # cs) (Num B) acc = allocateMinimums cs (Num (B - q)) (acc @ [e])"
    by (simp add: c q_def e_def Let_def)
  from Cons.IH [of "B - q" "acc @ [e]"] Cons.prems(1) q
  obtain ps B' where ih: "allocateMinimums cs (Num (B - q)) (acc @ [e]) = ((acc @ [e]) @ ps, Num B')"
    "0 \<le> B'" "list_all2 allocated ps cs"
    "sum_list (map (\<lambda>p. realOf (alloc_payment p)) ps) + B' = B - q"
    by auto
  have "allocated e c"
    using q c by (simp add: allocated_iff e_def)
  with ih step show ?case
    by (intro exI [of _ "e # ps"] exI [of _ B']) (simp add: e_def)
qed

lemma sumPayments_allocated:
  "list_all2 allocated ps cs \<Longrightarrow>
     sumPayments ps = Num (sum_list (map (\<lambda>p. realOf (alloc_payment p)) ps))"
proof (induction ps cs rule: list_all2_induct)
  case Nil
  then show ?case by (simp add: sumPayments_def)
next
  case (Cons p ps c cs)
  then show ?case by (auto simp: sumPayments_def allocated_iff)
qed



subsection \<open>The payoff simulation\<close>

lemma calculateMonthlyInterest_NaN [simp]: "calculateMonthlyInterest NaN r = NaN"
  by (simp add: calculateMonthlyInterest_def)

lemma payoff_loop_months:
  "months \<le> 600 \<Longrightarrow> fst (snd (payoff_loop p r b months t)) \<le> 600"
proof (induction p r b months t rule: payoff_loop.induct)
  case (1 p r b months t)
  show ?case
  proof (cases "Num 0.01 < b \<and> months < 600")
    case True
    show ?thesis
    proof (cases "Math_min (p - b * r) b \<le> Num 0")
      case True
      with \<open>Num 0.01 < b \<and> months < 600\<close> show ?thesis
        by (subst payoff_loop.simps) (simp add: Let_def)
    next
      case False
      with \<open>Num 0.01 < b \<and> months < 600\<close> 1(1) [OF _ refl refl] show ?thesis
        by (subst payoff_loop.simps) (simp add: Let_def)
    qed
  next
    case False
    with 1(2) show ?thesis by (subst payoff_loop.simps) auto
  qed
qed

lemma payoff_loop_stop:
  "currentBalance \<le> Num 0.01 \<or> 600 \<le> months \<Longrightarrow>
     payoff_loop p r currentBalance months totalInterest = (currentBalance, months, totalInterest)"
  by (subst payoff_loop.simps) (auto dest: less_eq_not_less)

text \<open>A payment of whole cents that is at most the exact interest of the first month is
  at most the rounded interest that the code compares it with.\<close>

lemma cents_below_interest:
  fixes k :: int
  assumes "real_of_int k / 100 \<le> b * r / 100 / 12"
  shows "Num (real_of_int k / 100) \<le> calculateMonthlyInterest (Num b) (Num r)"
proof -
  have "real_of_int k \<le> b * (r / 100 / 12) * 100" using assms by simp
  then have "k \<le> \<lfloor>b * (r / 100 / 12) * 100\<rfloor>" by (simp add: le_floor_iff)
  also have "\<dots> \<le> \<lfloor>b * (r / 100 / 12) * 100 + 1 / 2\<rfloor>" by (intro floor_mono) simp
  finally have "real_of_int k \<le> of_int \<lfloor>b * (r / 100 / 12) * 100 + 1 / 2\<rfloor>" by simp
  then show ?thesis by (simp add: calculateMonthlyInterest_def Let_def)
qed



subsection \<open>The payment schedule\<close>

lemma schedule_loop_length:
  "length (schedule_loop p r mx m b d s) \<le> length s + (mx - m)"
proof (induction p r mx m b d s rule: schedule_loop.induct)
  case (1 p r mx m b d s)
  show ?case
  proof (cases "m < mx \<and> Num 0.01 < b \<and> \<not> Math_min (p - b * r) b \<le> Num 0")
    case True
    then have "length (schedule_loop p r mx m b d s) \<le> length s + 1 + (mx - (m + 1))"
      using 1 [OF _ refl refl _ refl] by (subst schedule_loop.simps) (simp add: Let_def)
    with True show ?thesis by arith
  next
    case False
    then show ?thesis by (subst schedule_loop.simps) (auto simp: Let_def)
  qed
qed

lemma generatePaymentSchedule_unreachable:
  assumes "0.01 < b" "p \<le> b * r / 100 / 12"
  shows "generatePaymentSchedule now (Num b) (Num r) (Num p) maxMonths = []"
  using assms
  apply (simp add: generatePaymentSchedule_def)
  apply (subst schedule_loop.simps)
  apply (auto simp: Let_def min_def)
  done

lemma generatePaymentSchedule_paid_off:
  assumes "balance \<le> Num 0.01"
  shows "generatePaymentSchedule now balance rate monthlyPayment maxMonths = []"
  using assms
  apply (simp add: generatePaymentSchedule_def)
  apply (subst schedule_loop.simps)
  apply (auto simp: Let_def dest: less_eq_not_less)
  done

lemma numericFields_record [simp]:
  "numericFields \<lparr>rec_date = d, rec_amount = a, rec_interestCharged = i, rec_principalPaid = q,
     rec_remainingBalance = b\<rparr> = (a, i, q, b)"
  by (simp add: numericFields_def)

lemma schedule_loop_numeric:
  "map numericFields s1 = map numericFields s2 \<Longrightarrow>
   map numericFields (schedule_loop p r mx m b d1 s1) =
   map numericFields (schedule_loop p r mx m b d2 s2)"
proof (induction p r mx m b d1 s1 arbitrary: d2 s2 rule: schedule_loop.induct)
  case (1 p r mx m b d1 s1)
  show ?case
  proof (cases "m < mx \<and> Num 0.01 < b \<and> \<not> Math_min (p - b * r) b \<le> Num 0")
    case True
    let ?b = "b - Math_min (p - b * r) b"
    let ?next = "\<lambda>d. newDate (getFullYear d) (getMonth d + 1) (getDate d)"
    let ?e = "\<lambda>d. \<lparr>rec_date = ?next d, rec_amount = p,
                 rec_interestCharged = Math_round (b * r * Num 100) / Num 100,
                 rec_principalPaid = Math_round (Math_min (p - b * r) b * Num 100) / Num 100,
                 rec_remainingBalance = Math_round (?b * Num 100) / Num 100\<rparr>"
    have "map numericFields (s1 @ [?e d1]) = map numericFields (s2 @ [?e d2])"
      using "1.prems" by simp
    with True have
      "map numericFields (schedule_loop p r mx (m + 1) ?b (?next d1) (s1 @ [?e d1])) =
       map numericFields (schedule_loop p r mx (m + 1) ?b (?next d2) (s2 @ [?e d2]))"
      by (intro "1.IH" [OF _ refl refl _ refl]) simp_all
    with True show ?thesis
      by (subst (1 2) schedule_loop.simps) (simp add: Let_def)
  next
    case False
    then show ?thesis
      using "1.prems" by (subst (1 2) schedule_loop.simps) (auto simp: Let_def)
  qed
qed

lemma schedule_loop_dates:
  "\<exists>n. map rec_date (schedule_loop p r mx m b d s) =
         map rec_date s @ map (\<lambda>k. (nextMonth ^^ Suc k) d) [0..<n]"
proof (induction p r mx m b d s rule: schedule_loop.induct)
  case (1 p r mx m b d s)
  show ?case
  proof (cases "m < mx \<and> Num 0.01 < b \<and> \<not> Math_min (p - b * r) b \<le> Num 0")
    case True
    let ?b = "b - Math_min (p - b * r) b"
    let ?e = "\<lparr>rec_date = nextMonth d, rec_amount = p,
                 rec_interestCharged = Math_round (b * r * Num 100) / Num 100,
                 rec_principalPaid = Math_round (Math_min (p - b * r) b * Num 100) / Num 100,
                 rec_remainingBalance = Math_round (?b * Num 100) / Num 100\<rparr>"
    have step: "schedule_loop p r mx m b d s = schedule_loop p r mx (m + 1) ?b (nextMonth d) (s @ [?e])"
      using True by (subst schedule_loop.simps) (simp add: Let_def nextMonth_def)
    from True obtain n where ih:
      "map rec_date (schedule_loop p r mx (m + 1) ?b (nextMonth d) (s @ [?e])) =
         map rec_date (s @ [?e]) @ map (\<lambda>k. (nextMonth ^^ Suc k) (nextMonth d)) [0..<n]"
      using "1.IH" [OF _ refl refl _ refl] unfolding nextMonth_def by auto
    have "map (\<lambda>k. (nextMonth ^^ Suc k) d) [0..<Suc n] =
        nextMonth d # map (\<lambda>k. (nextMonth ^^ Suc k) (nextMonth d)) [0..<n]"
      by (simp add: upt_conv_Cons map_Suc_upt [symmetric] funpow_swap1 del: upt_Suc)
    with step ih show ?thesis
      by (intro exI [of _ "Suc n"]) simp
  next
    case False
    then have "schedule_loop p r mx m b d s = s"
      by (subst schedule_loop.simps) (auto simp: Let_def)
    then show ?thesis by (intro exI [of _ 0]) simp
  qed
qed

lemma generatePaymentSchedule_dates:
  "map rec_date (generatePaymentSchedule now balance rate monthlyPayment maxMonths) =
   map (\<lambda>k. (nextMonth ^^ Suc k) now)
     [0..<length (generatePaymentSchedule now balance rate monthlyPayment maxMonths)]"
proof -
  obtain n where n: "map rec_date (generatePaymentSchedule now balance rate monthlyPayment maxMonths) =
      map (\<lambda>k. (nextMonth ^^ Suc k) now) [0..<n]"
    using schedule_loop_dates [of monthlyPayment "rate / Num 100 / Num 12" maxMonths 0 balance now "[]"]
    by (auto simp: generatePaymentSchedule_def)
  then have "length (generatePaymentSchedule now balance rate monthlyPayment maxMonths) = n"
    by (metis diff_zero length_map length_upt)
  with n show ?thesis by simp
qed

text \<open>
  Claim C8, as the code has it. Every calculation function of the two modules but one
  reads nothing but its arguments, and its model is a function of them.
  \<open>generatePaymentSchedule\<close> reads the clock, \<open>new Date()\<close>: the number of its entries
  and their amount, interest, principal and remaining balance are the same whatever the
  clock says, while the date of the k-th entry is the day of the call moved k months on.
\<close>

theorem generatePaymentSchedule_clock:
  "map numericFields (generatePaymentSchedule now1 balance rate monthlyPayment maxMonths) =
   map numericFields (generatePaymentSchedule now2 balance rate monthlyPayment maxMonths) \<and>
   map rec_date (generatePaymentSchedule now1 balance rate monthlyPayment maxMonths) =
   map (\<lambda>k. (nextMonth ^^ Suc k) now1)
     [0..<length (generatePaymentSchedule now1 balance rate monthlyPayment maxMonths)]"
  using generatePaymentSchedule_dates
  by (simp add: generatePaymentSchedule_def schedule_loop_numeric)

text \<open>
  Claim C8 as it is stated fails: the same arguments on 15 January 2024 and on
  15 February 2024 give schedules that differ (in the dates of their entries).
\<close>

theorem generatePaymentSchedule_clock_counterexample:
  "generatePaymentSchedule \<lparr>getFullYear = 2024, getMonth = 0, getDate = 15\<rparr>
       (Num 100) (Num 0) (Num 50) 120 \<noteq>
   generatePaymentSchedule \<lparr>getFullYear = 2024, getMonth = 1, getDate = 15\<rparr>
       (Num 100) (Num 0) (Num 50) 120"
  by (simp add: generatePaymentSchedule_def schedule_loop.simps newDate.simps daysInMonth_def
        isLeapYear_def Let_def)



subsection \<open>The monthly payment\<close>

lemma calculateMonthlyPayment_zero_rate:
  "t \<noteq> 0 \<Longrightarrow> calculateMonthlyPayment (Num P) (Num 0) t = Num (round_to_cents (P / real (t * 12)))"
  by (simp add: calculateMonthlyPayment_def of_count_def round_to_cents_def)

lemma calculateMonthlyPayment_annuity:
  assumes "rate \<noteq> 0" "(1 + rate / 100 / 12) ^ (t * 12) \<noteq> 1"
  shows "calculateMonthlyPayment (Num P) (Num rate) t =
    Num (round_to_cents (spec_annuity_payment P (rate / 100 / 12) (t * 12)))"
  using assms
  by (simp add: calculateMonthlyPayment_def Let_def round_to_cents_def spec_annuity_payment_def)



lemma compound_bound:
  fixes r :: real
  assumes "0 \<le> r"
  shows "(1 + r) ^ n - 1 \<le> real n * r * (1 + r) ^ n"
proof (induction n)
  case 0
  then show ?case by simp
next
  case (Suc n)
  have one: "1 \<le> (1 + r) ^ n" using assms by simp
  have "(1 + r) ^ Suc n - 1 = (1 + r) * ((1 + r) ^ n - 1) + r"
    by (simp add: algebra_simps)
  also have "\<dots> \<le> (1 + r) * (real n * r * (1 + r) ^ n) + r"
    using Suc assms by (simp add: mult_left_mono)
  also have "\<dots> \<le> (1 + r) * (real n * r * (1 + r) ^ n) + r * (1 + r) ^ Suc n"
  proof -
    have "1 \<le> (1 + r) ^ Suc n" using assms by (intro one_le_power) simp
    then have "r * 1 \<le> r * (1 + r) ^ Suc n" using assms by (intro mult_left_mono) auto
    then show ?thesis by simp
  qed
  also have "\<dots> = real (Suc n) * r * (1 + r) ^ Suc n"
    by (simp add: algebra_simps)
  finally show ?case .
qed

lemma annuity_covers_principal:
  fixes P r :: real
  assumes "0 < P" "0 < r" "0 < n"
  shows "P / real n \<le> spec_annuity_payment P r n"
proof -
  have gt: "1 < (1 + r) ^ n"
    using assms by (simp add: one_less_power)
  then have d: "0 < (1 + r) ^ n - 1" by simp
  have "(1 + r) ^ n - 1 \<le> real n * r * (1 + r) ^ n"
    using compound_bound [of r n] assms by simp
  then have "P * ((1 + r) ^ n - 1) \<le> P * (real n * r * (1 + r) ^ n)"
    using assms by (intro mult_left_mono) auto
  then have "P * ((1 + r) ^ n - 1) \<le> (P * (r * (1 + r) ^ n)) * real n"
    by (simp add: mult_ac)
  then have "P / real n \<le> (P * (r * (1 + r) ^ n)) / ((1 + r) ^ n - 1)"
    using d assms(3) by (simp add: field_simps)
  then show ?thesis by (simp add: spec_annuity_payment_def)
qed





subsection \<open>Private mortgage insurance\<close>

lemma pmi_of_calculateMortgage:
  "out_monthlyPMI (calculateMortgage inputs) =
     (if in_downPayment inputs / in_loanAmount inputs * Num 100 < Num 20
      then calculatePMI (in_loanAmount inputs - in_downPayment inputs)
             (case in_pmiRate inputs of None \<Rightarrow> Num 0 | Some v \<Rightarrow> v)
      else Num 0)"
  by (simp add: calculateMortgage_def Let_def)

lemma percent_below_20: "x * Num 100 < Num 20 \<longleftrightarrow> x < Num 0.20"
  by (cases x) (auto simp: inf_of_sign_def)

lemma calculatePMI_positive:
  "Num 0 < calculatePMI (Num a) (Num q) \<longleftrightarrow> 0.005 \<le> a * q / 1200"
proof -
  have "calculatePMI (Num a) (Num q) = Num (of_int \<lfloor>a * q / 1200 * 100 + 1 / 2\<rfloor> / 100)"
    by (simp add: calculatePMI_def)
  moreover have "0 < (of_int \<lfloor>a * q / 1200 * 100 + 1 / 2\<rfloor> :: real) / 100 \<longleftrightarrow>
      1 \<le> \<lfloor>a * q / 1200 * 100 + 1 / 2\<rfloor>"
    by simp
  moreover have "1 \<le> \<lfloor>a * q / 1200 * 100 + 1 / 2\<rfloor> \<longleftrightarrow> 0.005 \<le> a * q / 1200"
    by (simp add: le_floor_iff) linarith
  ultimately show ?thesis by simp
qed




subsection \<open>The affordable price\<close>

text \<open>
  Claim C7 says that the affordable price is rounded to cents in both branches. The
  branch for a rate of zero returns the quotient as it is: a budget of 100 a month for
  one year with 30 percent down gives 12000 / 7, which is 1714.2857..., where the
  rounded value is 1714.29.
\<close>

theorem calculateAffordableHousePrice_zero_rate_unrounded:
  "calculateAffordableHousePrice (Num 100) (Num 30) (Num 0) 1 (Num 0) = Num (12000 / 7) \<and>
   Math_round (Num (12000 / 7) * Num 100) / Num 100 = Num 1714.29"
  by (simp add: calculateAffordableHousePrice_def Let_def of_count_def)


subsection \<open>The amortization schedule\<close>

lemma amortization_loop_stop:
  "\<not> m \<le> n \<Longrightarrow> amortization_loop r p n m b t s = s"
  by (subst amortization_loop.simps) simp

lemma amortization_loop_step:
  "m \<le> n \<Longrightarrow>
   amortization_loop (Num r) (Num p) n m (Num b) (Num t) s =
   amortization_loop (Num r) (Num p) n (m + 1) (Num (max 0 (b - (p - b * r)))) (Num (t + b * r))
     (s @ [\<lparr>entry_month = m,
            entry_principalPayment = Num (round_to_cents (p - b * r)),
            entry_interestPayment = Num (round_to_cents (b * r)),
            entry_remainingBalance = Num (round_to_cents (max 0 (b - (p - b * r)))),
            entry_totalInterestPaid = Num (round_to_cents (t + b * r))\<rparr>])"
  by (subst amortization_loop.simps) (simp add: Let_def round_to_cents_def max_def)

text \<open>The schedule has one entry for each month of the term.\<close>

lemma amortization_loop_length:
  "length (amortization_loop r p n m b t s) = length s + (Suc n - m)"
proof (induction r p n m b t s rule: amortization_loop.induct)
  case (1 r p n m b t s)
  show ?case
  proof (cases "m \<le> n")
    case True
    then show ?thesis
      using 1 [OF True refl refl refl refl]
      by (subst amortization_loop.simps) (simp add: Let_def Suc_diff_le)
  next
    case False
    then show ?thesis by (subst amortization_loop.simps) simp
  qed
qed

lemma generateAmortizationSchedule_length:
  "length (generateAmortizationSchedule P rate t) = t * 12"
  by (simp add: generateAmortizationSchedule_def Let_def amortization_loop_length)

text \<open>What the loop has pushed stays at the front of its result.\<close>

lemma amortization_loop_prefix:
  "amortization_loop r p n m b t s = s @ amortization_loop r p n m b t []"
proof (induction "Suc n - m" arbitrary: m b t s)
  case 0
  then have "\<not> m \<le> n" by simp
  then show ?case by (simp add: amortization_loop_stop)
next
  case (Suc d)
  then have mn: "m \<le> n" by simp
  have d: "d = Suc n - (m + 1)" using Suc.hyps(2) by simp
  let ?i = "b * r"
  let ?c = "if b - (p - ?i) < Num 0 then Num 0 else b - (p - ?i)"
  let ?e = "\<lparr>entry_month = m,
                entry_principalPayment = Math_round ((p - ?i) * Num 100) / Num 100,
                entry_interestPayment = Math_round (?i * Num 100) / Num 100,
                entry_remainingBalance = Math_round (?c * Num 100) / Num 100,
                entry_totalInterestPaid = Math_round ((t + ?i) * Num 100) / Num 100\<rparr>"
  have unfold: "amortization_loop r p n m b t s' =
      amortization_loop r p n (m + 1) ?c (t + ?i) (s' @ [?e])" for s'
    using mn by (subst amortization_loop.simps) (simp add: Let_def)
  have "amortization_loop r p n m b t s =
      (s @ [?e]) @ amortization_loop r p n (m + 1) ?c (t + ?i) []"
    using Suc.hyps(1) [OF d, of ?c "t + ?i" "s @ [?e]"] by (simp add: unfold [of s])
  moreover have "amortization_loop r p n m b t [] =
      [?e] @ amortization_loop r p n (m + 1) ?c (t + ?i) []"
    using Suc.hyps(1) [OF d, of ?c "t + ?i" "[?e]"] by (simp add: unfold [of "[]"])
  ultimately show ?case by simp
qed

text \<open>At a rate of zero every month pays \<open>p\<close> of principal, as long as the balance lasts.\<close>

lemma amortization_zero_rate:
  assumes "0 \<le> p" "m \<le> Suc n" "real (Suc n - m) * p \<le> b"
  shows "amortization_loop (Num 0) (Num p) n m (Num b) (Num 0) s =
     s @ map (\<lambda>k. \<lparr>entry_month = k,
                     entry_principalPayment = Num (round_to_cents p),
                     entry_interestPayment = Num 0,
                     entry_remainingBalance = Num (round_to_cents (b - real (Suc k - m) * p)),
                     entry_totalInterestPaid = Num 0\<rparr>) [m..<Suc n]"
  using assms(2,3)
proof (induction "Suc n - m" arbitrary: m b s)
  case 0
  then have "\<not> m \<le> n" by simp
  moreover from 0 have "[m..<Suc n] = []" by simp
  ultimately show ?case by (simp add: amortization_loop_stop)
next
  case (Suc d)
  then have mn: "m \<le> n" by simp
  let ?e = "\<lambda>m b k. \<lparr>entry_month = k,
                     entry_principalPayment = Num (round_to_cents p),
                     entry_interestPayment = Num 0,
                     entry_remainingBalance = Num (round_to_cents (b - real (Suc k - m) * p)),
                     entry_totalInterestPaid = Num 0\<rparr>"
  have d: "d = Suc n - (m + 1)" using Suc.hyps(2) by simp
  have split: "real (Suc n - m) = real (Suc n - (m + 1)) + 1"
    using mn by (simp add: Suc_diff_le)
  have le: "real (Suc n - (m + 1)) * p \<le> b - p"
    using Suc.prems(2) by (simp add: split algebra_simps)
  have "0 \<le> real (Suc n - (m + 1)) * p" using assms(1) by simp
  with le have bp: "p \<le> b" by linarith
  have step: "amortization_loop (Num 0) (Num p) n m (Num b) (Num 0) s =
      amortization_loop (Num 0) (Num p) n (m + 1) (Num (b - p)) (Num 0) (s @ [?e m b m])"
    using mn bp by (simp add: amortization_loop_step max_def)
  have ih: "amortization_loop (Num 0) (Num p) n (m + 1) (Num (b - p)) (Num 0) (s @ [?e m b m]) =
      (s @ [?e m b m]) @ map (?e (m + 1) (b - p)) [m + 1..<Suc n]"
    using mn le by (intro Suc.hyps(1) [OF d]) simp_all
  have same: "map (?e (m + 1) (b - p)) [m + 1..<Suc n] = map (?e m b) [m + 1..<Suc n]"
  proof (rule map_cong [OF refl])
    fix k assume "k \<in> set [m + 1..<Suc n]"
    then have "m < k" by auto
    then have "real (Suc k - m) = real (Suc k - (m + 1)) + 1" by (simp add: Suc_diff_le)
    then show "?e (m + 1) (b - p) k = ?e m b k" by (simp add: algebra_simps)
  qed
  have "[m..<Suc n] = m # [m + 1..<Suc n]"
    using mn by (simp add: upt_conv_Cons)
  with step ih same show ?case by simp
qed

text \<open>300000 at no interest over thirty years: the payment is 833.33.\<close>

lemma schedule_300000:
  "generateAmortizationSchedule (Num 300000) (Num 0) 30 =
     map (\<lambda>k. \<lparr>entry_month = k,
                 entry_principalPayment = Num 833.33,
                 entry_interestPayment = Num 0,
                 entry_remainingBalance = Num (round_to_cents (300000 - real k * 833.33)),
                 entry_totalInterestPaid = Num 0\<rparr>) [1..<361]"
proof -
  have p: "calculateMonthlyPayment (Num 300000) (Num 0) 30 = Num 833.33"
    by (simp add: calculateMonthlyPayment_def of_count_def)
  have "amortization_loop (Num 0) (Num 833.33) 360 1 (Num 300000) (Num 0) [] =
     [] @ map (\<lambda>k. \<lparr>entry_month = k,
                     entry_principalPayment = Num (round_to_cents 833.33),
                     entry_interestPayment = Num 0,
                     entry_remainingBalance = Num (round_to_cents (300000 - real (Suc k - 1) * 833.33)),
                     entry_totalInterestPaid = Num 0\<rparr>) [1..<Suc 360]"
    by (rule amortization_zero_rate) simp_all
  moreover have "round_to_cents 833.33 = 833.33" by (simp add: round_to_cents_def)
  ultimately show ?thesis
    by (simp add: generateAmortizationSchedule_def Let_def p)
qed

text \<open>A payment equal to the interest of the month leaves the balance where it is.\<close>

lemma amortization_interest_only:
  assumes "p = b * r" "0 \<le> b" "m \<le> Suc n"
  shows "amortization_loop (Num r) (Num p) n m (Num b) (Num t) s =
     s @ map (\<lambda>k. \<lparr>entry_month = k,
                     entry_principalPayment = Num 0,
                     entry_interestPayment = Num (round_to_cents p),
                     entry_remainingBalance = Num (round_to_cents b),
                     entry_totalInterestPaid = Num (round_to_cents (t + real (Suc k - m) * p))\<rparr>)
           [m..<Suc n]"
  using assms(3)
proof (induction "Suc n - m" arbitrary: m t s)
  case 0
  then have "\<not> m \<le> n" by simp
  moreover from 0 have "[m..<Suc n] = []" by simp
  ultimately show ?case by (simp add: amortization_loop_stop)
next
  case (Suc d)
  then have mn: "m \<le> n" by simp
  let ?e = "\<lambda>m t k. \<lparr>entry_month = k,
                     entry_principalPayment = Num 0,
                     entry_interestPayment = Num (round_to_cents p),
                     entry_remainingBalance = Num (round_to_cents b),
                     entry_totalInterestPaid = Num (round_to_cents (t + real (Suc k - m) * p))\<rparr>"
  have d: "d = Suc n - (m + 1)" using Suc.hyps(2) by simp
  have step: "amortization_loop (Num r) (Num p) n m (Num b) (Num t) s =
      amortization_loop (Num r) (Num p) n (m + 1) (Num b) (Num (t + p)) (s @ [?e m t m])"
    using mn assms(1,2) by (simp add: amortization_loop_step max_def)
  have ih: "amortization_loop (Num r) (Num p) n (m + 1) (Num b) (Num (t + p)) (s @ [?e m t m]) =
      (s @ [?e m t m]) @ map (?e (m + 1) (t + p)) [m + 1..<Suc n]"
    using mn by (intro Suc.hyps(1) [OF d]) simp_all
  have same: "map (?e (m + 1) (t + p)) [m + 1..<Suc n] = map (?e m t) [m + 1..<Suc n]"
  proof (rule map_cong [OF refl])
    fix k assume "k \<in> set [m + 1..<Suc n]"
    then have "m < k" by auto
    then have "real (Suc k - m) = real (Suc k - (m + 1)) + 1" by (simp add: Suc_diff_le)
    then show "?e (m + 1) (t + p) k = ?e m t k" by (simp add: algebra_simps)
  qed
  have "[m..<Suc n] = m # [m + 1..<Suc n]"
    using mn by (simp add: upt_conv_Cons)
  with step ih same show ?case by simp
qed

text \<open>
  1000 and 1000.16 at 30 percent over fifty years: the compound factor over the 600
  months is so large that the payment exceeds the first interest by less than the
  rounding takes away, and the rounded payment is 25.00 for both.
\<close>

lemma compound_600: "(25005::real) < (41 / 40) ^ 600"
proof -
  have a: "(8 / 5 :: real) \<le> (41 / 40) ^ 20"
    by (simp add: power_divide)
  have "((8 / 5 :: real)) ^ 30 \<le> ((41 / 40) ^ 20) ^ 30"
    using a by (intro power_mono) simp_all
  moreover have "((41 / 40 :: real) ^ 20) ^ 30 = (41 / 40) ^ 600"
    by (simp add: power_mult [symmetric])
  moreover have "(25005::real) < (8 / 5) ^ 30"
    by (simp add: power_divide)
  ultimately show ?thesis by linarith
qed

lemma payment_floor:
  fixes x :: real
  assumes "25005 < x"
  shows "\<lfloor>25004 / 25 * (1 / 40 * x) / (x - 1) * 100 + 1 / 2\<rfloor> = 2500"
proof -
  have pos: "0 < x - 1" using assms by simp
  have "2500 \<le> 25004 / 25 * (1 / 40 * x) / (x - 1) * 100 + 1 / 2"
    using pos assms by (simp add: field_simps)
  moreover have "25004 / 25 * (1 / 40 * x) / (x - 1) * 100 + 1 / 2 < 2501"
    using pos assms by (simp add: field_simps)
  ultimately show ?thesis by (simp add: floor_eq_iff)
qed

lemma payment_1000_16: "calculateMonthlyPayment (Num 1000.16) (Num 30) 50 = Num 25"
proof -
  have "(41 / 40 :: real) ^ 600 \<noteq> 1" using compound_600 by linarith
  then show ?thesis
    using payment_floor [OF compound_600]
    by (simp add: calculateMonthlyPayment_def Let_def)
qed

lemma compound_600_low: "(5001::real) < (41 / 40) ^ 600"
  using compound_600 by linarith

lemma payment_floor_1000:
  fixes x :: real
  assumes "5001 < x"
  shows "\<lfloor>1000 * (1 / 40 * x) / (x - 1) * 100 + 1 / 2\<rfloor> = 2500"
proof -
  have pos: "0 < x - 1" using assms by simp
  have "2500 \<le> 1000 * (1 / 40 * x) / (x - 1) * 100 + 1 / 2"
    using pos assms by (simp add: field_simps)
  moreover have "1000 * (1 / 40 * x) / (x - 1) * 100 + 1 / 2 < 2501"
    using pos assms by (simp add: field_simps)
  ultimately show ?thesis by (simp add: floor_eq_iff)
qed

lemma payment_1000: "calculateMonthlyPayment (Num 1000) (Num 30) 50 = Num 25"
proof -
  have "(41 / 40 :: real) ^ 600 \<noteq> 1" using compound_600 by linarith
  then show ?thesis
    using payment_floor_1000 [OF compound_600_low]
    by (simp add: calculateMonthlyPayment_def Let_def)
qed

lemma schedule_1000:
  "generateAmortizationSchedule (Num 1000) (Num 30) 50 =
     map (\<lambda>k. \<lparr>entry_month = k,
                 entry_principalPayment = Num 0,
                 entry_interestPayment = Num 25,
                 entry_remainingBalance = Num 1000,
                 entry_totalInterestPaid = Num (round_to_cents (real k * 25))\<rparr>) [1..<601]"
proof -
  have "amortization_loop (Num (1 / 40)) (Num 25) 600 1 (Num 1000) (Num 0) [] =
     [] @ map (\<lambda>k. \<lparr>entry_month = k,
                     entry_principalPayment = Num 0,
                     entry_interestPayment = Num (round_to_cents 25),
                     entry_remainingBalance = Num (round_to_cents 1000),
                     entry_totalInterestPaid = Num (round_to_cents (0 + real (Suc k - 1) * 25))\<rparr>)
           [1..<Suc 600]"
    by (rule amortization_interest_only) simp_all
  moreover have "round_to_cents 25 = 25" "round_to_cents 1000 = 1000"
    by (simp_all add: round_to_cents_def)
  ultimately show ?thesis
    unfolding generateAmortizationSchedule_def Let_def payment_1000 by simp
qed

lemma last_1000:
  "entry_remainingBalance (last (generateAmortizationSchedule (Num 1000) (Num 30) 50)) = Num 1000"
  "entry_totalInterestPaid (last (generateAmortizationSchedule (Num 1000) (Num 30) 50)) = Num 15000"
proof -
  have "last [1..<601::nat] = 600" by (simp add: last_upt)
  then show
    "entry_remainingBalance (last (generateAmortizationSchedule (Num 1000) (Num 30) 50)) = Num 1000"
    "entry_totalInterestPaid (last (generateAmortizationSchedule (Num 1000) (Num 30) 50)) = Num 15000"
    by (simp_all add: schedule_1000 last_map round_to_cents_def)
qed

lemma flat_1000:
  "calculateTotalInterest (calculateMonthlyPayment (Num 1000) (Num 30) 50) 50 (Num 1000) = Num 14000"
  unfolding payment_1000 by (simp add: calculateTotalInterest_def Let_def of_count_def)

lemma schedule_1000_16:
  "entry_remainingBalance (generateAmortizationSchedule (Num 1000.16) (Num 30) 50 ! 0) = Num 1000.16 \<and>
   entry_remainingBalance (generateAmortizationSchedule (Num 1000.16) (Num 30) 50 ! 1) = Num 1000.17"
proof -
  have "generateAmortizationSchedule (Num 1000.16) (Num 30) 50 =
      amortization_loop (Num (1 / 40)) (Num 25) 600 1 (Num 1000.16) (Num 0) []"
    unfolding generateAmortizationSchedule_def Let_def payment_1000_16 by simp
  also have "\<dots> = amortization_loop (Num (1 / 40)) (Num 25) 600 2 (Num 1000.164) (Num 25.004)
      [\<lparr>entry_month = 1, entry_principalPayment = Num 0,
        entry_interestPayment = Num 25, entry_remainingBalance = Num 1000.16,
        entry_totalInterestPaid = Num 25\<rparr>]"
    by (subst amortization_loop_step) (simp_all add: round_to_cents_def numeral_2_eq_2 numeral_3_eq_3)
  also have "\<dots> = amortization_loop (Num (1 / 40)) (Num 25) 600 3 (Num 1000.1681) (Num 50.0081)
      [\<lparr>entry_month = 1, entry_principalPayment = Num 0,
        entry_interestPayment = Num 25, entry_remainingBalance = Num 1000.16,
        entry_totalInterestPaid = Num 25\<rparr>,
       \<lparr>entry_month = 2, entry_principalPayment = Num 0,
        entry_interestPayment = Num 25, entry_remainingBalance = Num 1000.17,
        entry_totalInterestPaid = Num 50.01\<rparr>]"
    by (subst amortization_loop_step) (simp_all add: round_to_cents_def numeral_2_eq_2 numeral_3_eq_3)
  finally have "generateAmortizationSchedule (Num 1000.16) (Num 30) 50 =
      [\<lparr>entry_month = 1, entry_principalPayment = Num 0,
        entry_interestPayment = Num 25, entry_remainingBalance = Num 1000.16,
        entry_totalInterestPaid = Num 25\<rparr>,
       \<lparr>entry_month = 2, entry_principalPayment = Num 0,
        entry_interestPayment = Num 25, entry_remainingBalance = Num 1000.17,
        entry_totalInterestPaid = Num 50.01\<rparr>] @
      amortization_loop (Num (1 / 40)) (Num 25) 600 3 (Num 1000.1681) (Num 50.0081) []"
    by (subst (asm) amortization_loop_prefix)
  then show ?thesis by (simp add: nth_append)
qed

text \<open>
  Claim C3 says that the remaining balance never rises from one entry to the next and
  that the last entry's remaining balance is within 0.01 of zero. The schedule has
  \<open>termYears * 12\<close> entries (\<open>generateAmortizationSchedule_length\<close>), but the code
  pays the payment that was rounded to cents in every month and only resets a balance
  below zero: a payment rounded down leaves a balance at the end. 1100 at 12 percent
  over one year ends at 0.05; 300000 at no interest over thirty years ends at 1.20;
  1000 at 30 percent over fifty years ends at 1000.00, nothing repaid; and for 1000.16
  at 30 percent over fifty years the balance rises from the first entry to the second.
\<close>

theorem generateAmortizationSchedule_residual_balance:
  "length (generateAmortizationSchedule (Num 1100) (Num 12) 1) = 12 \<and>
   entry_remainingBalance (last (generateAmortizationSchedule (Num 1100) (Num 12) 1)) = Num 0.05 \<and>
   entry_remainingBalance (last (generateAmortizationSchedule (Num 300000) (Num 0) 30)) = Num 1.20 \<and>
   entry_remainingBalance (last (generateAmortizationSchedule (Num 1000) (Num 30) 50)) = Num 1000 \<and>
   entry_remainingBalance (generateAmortizationSchedule (Num 1000.16) (Num 30) 50 ! 0) =
     Num 1000.16 \<and>
   entry_remainingBalance (generateAmortizationSchedule (Num 1000.16) (Num 30) 50 ! 1) =
     Num 1000.17"
proof -
  have "last [1..<361::nat] = 360" by (simp add: last_upt)
  then have "entry_remainingBalance (last (generateAmortizationSchedule (Num 300000) (Num 0) 30)) =
      Num 1.20"
    by (simp add: schedule_300000 last_map round_to_cents_def)
  moreover have
    "entry_remainingBalance (last (generateAmortizationSchedule (Num 1100) (Num 12) 1)) = Num 0.05"
    by (simp add: generateAmortizationSchedule_def calculateMonthlyPayment_def Let_def power_divide
      amortization_loop_step amortization_loop_stop round_to_cents_def)
  ultimately show ?thesis
    using last_1000(1) schedule_1000_16 by (simp add: generateAmortizationSchedule_length)
qed

text \<open>
  Claim C9 says that the total interest computed from the flat payment agrees, within
  a few cents, with the cumulative interest of the last schedule entry. With the
  schedule as the code builds it the two differ by the balance that the schedule
  leaves: for 300000 at no interest over thirty years the flat figure is -1.20 and the
  schedule's is 0; for 1000 at 30 percent over fifty years they are 14000 and 15000.
\<close>

theorem total_interest_disagreement:
  "calculateTotalInterest (calculateMonthlyPayment (Num 300000) (Num 0) 30) 30 (Num 300000) =
     Num (- 1.20) \<and>
   entry_totalInterestPaid (last (generateAmortizationSchedule (Num 300000) (Num 0) 30)) = Num 0 \<and>
   calculateTotalInterest (calculateMonthlyPayment (Num 1000) (Num 30) 50) 50 (Num 1000) =
     Num 14000 \<and>
   entry_totalInterestPaid (last (generateAmortizationSchedule (Num 1000) (Num 30) 50)) =
     Num 15000"
proof -
  have "last [1..<361::nat] = 360" by (simp add: last_upt)
  then have
    "entry_totalInterestPaid (last (generateAmortizationSchedule (Num 300000) (Num 0) 30)) = Num 0"
    by (simp add: schedule_300000 last_map)
  moreover have
    "calculateTotalInterest (calculateMonthlyPayment (Num 300000) (Num 0) 30) 30 (Num 300000) =
       Num (- 1.20)"
    by (simp add: calculateMonthlyPayment_def of_count_def calculateTotalInterest_def Let_def)
  ultimately show ?thesis using flat_1000 last_1000(2) by simp
qed

end
